theory Spec2Isabelle
  imports Complex_Main "HOL-Library.Sublist"
begin

section \<open>Python values and strings\<close>

text \<open>
  The scorer \<^verbatim>\<open>HRIntelligenceBrain\<close> of \<^verbatim>\<open>hr_intelligence_brain.py\<close> keeps a dict from
  skill keyword to weight. Python floats are modelled as reals (exact arithmetic), a dict
  as an association list in insertion order with distinct keys, and a Python string as a
  \<^typ>\<open>string\<close> whose characters are the code points below 256.
\<close>

type_synonym weight_table = "(string \<times> real) list"

datatype py_error = AttributeError | TypeError | OverflowError | OSError | ValueError

text \<open>The values a caller can store under a key of \<^verbatim>\<open>candidate_data\<close>.\<close>

datatype pyval = PStr string | PList "pyval list" | PNone | PNum int

type_synonym candidate = "string \<rightharpoonup> pyval"

text \<open>\<^verbatim>\<open>d.get(k, default)\<close>\<close>

definition dict_get :: "candidate \<Rightarrow> string \<Rightarrow> pyval \<Rightarrow> pyval" where
  "dict_get d k dflt = (case d k of None \<Rightarrow> dflt | Some v \<Rightarrow> v)"

text \<open>Truth value of an object, as \<^verbatim>\<open>not skills\<close> reads it.\<close>

fun truthy :: "pyval \<Rightarrow> bool" where
  "truthy (PStr s) = (s \<noteq> [])"
| "truthy (PList xs) = (xs \<noteq> [])"
| "truthy PNone = False"
| "truthy (PNum n) = (n \<noteq> 0)"

text \<open>\<^verbatim>\<open>for s in skills\<close>: a list yields its elements, a string its characters, anything
  else raises TypeError.\<close>

fun py_iter :: "pyval \<Rightarrow> py_error + pyval list" where
  "py_iter (PList xs) = Inr xs"
| "py_iter (PStr s) = Inr (map (\<lambda>c. PStr [c]) s)"
| "py_iter PNone = Inl TypeError"
| "py_iter (PNum n) = Inl TypeError"

definition is_space :: "char \<Rightarrow> bool" where
  "is_space c = ((of_char c :: nat) \<in> {9, 10, 11, 12, 13, 28, 29, 30, 31, 32, 133, 160})"

text \<open>The code points below 256 that \<^verbatim>\<open>str.lower\<close> changes: A-Z and the capital
  letters of Latin-1.\<close>

definition is_upper :: "nat \<Rightarrow> bool" where
  "is_upper n = ((65 \<le> n \<and> n \<le> 90) \<or> (192 \<le> n \<and> n \<le> 222 \<and> n \<noteq> 215))"

definition lower_char :: "char \<Rightarrow> char" where
  "lower_char c = (if is_upper (of_char c) then char_of ((of_char c :: nat) + 32) else c)"

text \<open>\<^verbatim>\<open>str.lower\<close>, \<^verbatim>\<open>str.strip\<close> and \<^verbatim>\<open>str.split\<close> without arguments.\<close>

definition lower :: "string \<Rightarrow> string" where
  "lower s = map lower_char s"

definition strip :: "string \<Rightarrow> string" where
  "strip s = rev (dropWhile is_space (rev (dropWhile is_space s)))"

fun split_acc :: "string \<Rightarrow> string \<Rightarrow> string list" where
  "split_acc cur [] = (if cur = [] then [] else [rev cur])"
| "split_acc cur (c # cs) =
     (if is_space c
      then (if cur = [] then split_acc [] cs else rev cur # split_acc [] cs)
      else split_acc (c # cur) cs)"

definition split :: "string \<Rightarrow> string list" where
  "split s = split_acc [] s"

text \<open>\<^verbatim>\<open>s.lower()\<close> on an arbitrary value: only a string has the method.\<close>

fun str_lower :: "pyval \<Rightarrow> py_error + string" where
  "str_lower (PStr s) = Inr (lower s)"
| "str_lower v = Inl AttributeError"

text \<open>A list comprehension whose body may raise: the first exception ends it.\<close>

fun comprehension :: "('a \<Rightarrow> py_error + 'b) \<Rightarrow> 'a list \<Rightarrow> py_error + 'b list" where
  "comprehension f [] = Inr []"
| "comprehension f (x # xs) =
     (case f x of
        Inl e \<Rightarrow> Inl e
      | Inr y \<Rightarrow> (case comprehension f xs of Inl e \<Rightarrow> Inl e | Inr ys \<Rightarrow> Inr (y # ys)))"

section \<open>predict\_success\<close>

text \<open>\<^verbatim>\<open>a in b\<close> on strings is \<^const>\<open>sublist\<close>. The inner loop of \<^verbatim>\<open>predict_success\<close>
  (lines 169-177) walks the normalized candidate skills and leaves at the first one that
  hits either test.\<close>

definition word_overlap :: "string \<Rightarrow> string \<Rightarrow> bool" where
  "word_overlap skill candidate_skill = (set (split skill) \<inter> set (split candidate_skill) \<noteq> {})"

fun fuzzy_score :: "string \<Rightarrow> real \<Rightarrow> string list \<Rightarrow> real" where
  "fuzzy_score skill weight [] = 0"
| "fuzzy_score skill weight (candidate_skill # rest) =
     (if sublist skill candidate_skill \<or> sublist candidate_skill skill then weight * 0.8
      else if word_overlap skill candidate_skill then weight * 0.6
      else fuzzy_score skill weight rest)"

definition skill_score :: "string \<Rightarrow> real \<Rightarrow> string list \<Rightarrow> real" where
  "skill_score skill weight normalized_skills =
     (if skill \<in> set normalized_skills then weight
      else fuzzy_score skill weight normalized_skills)"

definition total_score :: "weight_table \<Rightarrow> string list \<Rightarrow> real" where
  "total_score ws normalized_skills =
     sum_list (map (\<lambda>(skill, weight). skill_score skill weight normalized_skills) ws)"

text \<open>\<^verbatim>\<open>math.exp\<close> raises OverflowError once the result exceeds the largest double,
  that is for arguments above \<open>ln(DBL_MAX)\<close>.\<close>

definition exp_overflow :: real where
  "exp_overflow = 709.782712893384"

definition math_exp :: "real \<Rightarrow> py_error + real" where
  "math_exp x = (if x > exp_overflow then Inl OverflowError else Inr (exp x))"

text \<open>\<^verbatim>\<open>round(p, 3)\<close>\<close>

definition round3 :: "real \<Rightarrow> real" where
  "round3 p = real_of_int (round (p * 1000)) / 1000"

definition normalize_predict :: "pyval \<Rightarrow> py_error + string list" where
  "normalize_predict skills =
     (case py_iter skills of
        Inl e \<Rightarrow> Inl e
      | Inr xs \<Rightarrow>
          comprehension (\<lambda>s. case str_lower s of Inl e \<Rightarrow> Inl e | Inr l \<Rightarrow> Inr (strip l)) xs)"

text \<open>The body of the \<^verbatim>\<open>try\<close> block of \<^verbatim>\<open>predict_success\<close>.\<close>

definition predict_body :: "weight_table \<Rightarrow> candidate \<Rightarrow> py_error + real" where
  "predict_body ws candidate_data =
     (let skills = dict_get candidate_data ''skills'' (PList [])
      in if \<not> truthy skills then Inr 0.2
         else case normalize_predict skills of
           Inl e \<Rightarrow> Inl e
         | Inr normalized_skills \<Rightarrow>
             (let total = total_score ws normalized_skills;
                  normalized_score =
                    (if ws \<noteq> []
                     then (let avg_weight = sum_list (map snd ws) / real (length ws);
                               max_possible = real (length normalized_skills) * avg_weight
                           in total / max max_possible 1.0)
                     else 0.0)
              in case math_exp (- 5 * (normalized_score - 0.5)) of
                   Inl e \<Rightarrow> Inl e
                 | Inr ex \<Rightarrow>
                     (let probability = 1 / (1 + ex);
                          probability = max 0.05 (min 0.95 probability)
                      in Inr (round3 probability))))"

text \<open>The \<^verbatim>\<open>except Exception\<close> handler returns 0.2.\<close>

definition predict_success :: "weight_table \<Rightarrow> candidate \<Rightarrow> real" where
  "predict_success ws candidate_data =
     (case predict_body ws candidate_data of Inl e \<Rightarrow> 0.2 | Inr p \<Rightarrow> p)"

section \<open>Rewards and the policy update\<close>

definition learning_rate :: real where
  "learning_rate = 0.15"

definition calculate_reward :: "real \<Rightarrow> string \<Rightarrow> real" where
  "calculate_reward feedback_score outcome =
     (let score_reward = (feedback_score - 3) / 2.0;
          outcome_lower = lower outcome;
          outcome_reward =
            (if outcome_lower \<in> set [''hired'', ''offer_accepted'', ''accept''] then 1.5
             else if outcome_lower \<in> set [''shortlisted'', ''interview'', ''second_round''] then 0.8
             else if outcome_lower \<in> set [''rejected'', ''declined'', ''reject''] then - 0.8
             else if outcome_lower \<in> set [''reconsider'', ''maybe'', ''pending''] then 0.2
             else 0.0);
          total_reward = (score_reward * 0.6) + (outcome_reward * 0.4)
      in max (- 2.0) (min 2.0 total_reward))"

text \<open>\<^verbatim>\<open>self.weights[k] = v\<close>: an existing key keeps its place, a new key goes last.\<close>

fun dict_set :: "weight_table \<Rightarrow> string \<Rightarrow> real \<Rightarrow> weight_table" where
  "dict_set [] k v = [(k, v)]"
| "dict_set ((k', v') # rest) k v =
     (if k' = k then (k, v) # rest else (k', v') # dict_set rest k v)"

definition keys :: "weight_table \<Rightarrow> string list" where
  "keys ws = map fst ws"

text \<open>\<^verbatim>\<open>[s.lower() for s in skills]\<close> of \<^verbatim>\<open>policy_update\<close>, which has no handler.\<close>

definition normalize_update :: "pyval \<Rightarrow> py_error + string list" where
  "normalize_update skills =
     (case py_iter skills of Inl e \<Rightarrow> Inl e | Inr xs \<Rightarrow> comprehension str_lower xs)"

text \<open>\<^verbatim>\<open>any(skill in s for s in normalized_skills)\<close>\<close>

definition matched :: "string \<Rightarrow> string list \<Rightarrow> bool" where
  "matched skill normalized_skills = list_ex (sublist skill) normalized_skills"

text \<open>The first loop (lines 298-307): each key is visited once; the flag \<^verbatim>\<open>updated\<close>
  is set when some key matched.\<close>

fun update_existing :: "string list \<Rightarrow> real \<Rightarrow> weight_table \<Rightarrow> weight_table" where
  "update_existing normalized_skills reward [] = []"
| "update_existing normalized_skills reward ((skill, old_weight) # rest) =
     (if matched skill normalized_skills
      then (let weight_change = learning_rate * reward
            in (skill, max 0.1 (min 5.0 (old_weight + weight_change))))
           # update_existing normalized_skills reward rest
      else (skill, old_weight) # update_existing normalized_skills reward rest)"

definition any_matched :: "string list \<Rightarrow> weight_table \<Rightarrow> bool" where
  "any_matched normalized_skills ws = list_ex (\<lambda>(skill, w). matched skill normalized_skills) ws"

text \<open>Skill discovery (lines 311-325), run only when \<^verbatim>\<open>reward > 0.3\<close>. The pair carries
  the table and the flag \<^verbatim>\<open>updated\<close>.\<close>

definition collides :: "string \<Rightarrow> string \<Rightarrow> bool" where
  "collides existing clean_s =
     (sublist existing clean_s \<or> sublist clean_s existing
      \<or> \<bar>int (length existing) - int (length clean_s)\<bar> < 3)"

fun discover :: "real \<Rightarrow> string list \<Rightarrow> weight_table \<times> bool \<Rightarrow> weight_table \<times> bool" where
  "discover reward [] (ws, updated) = (ws, updated)"
| "discover reward (s # rest) (ws, updated) =
     (let clean_s = lower (strip s);
          should_add = (\<not> list_ex (\<lambda>existing. collides existing clean_s) (keys ws))
      in if should_add \<and> length clean_s < 25 \<and> length clean_s > 2
         then (let initial_weight = 1.0 + (learning_rate * reward * 2)
               in discover reward rest (dict_set ws clean_s (max 0.5 (min 3.0 initial_weight)), True))
         else discover reward rest (ws, updated))"

text \<open>The decay loop (lines 329-331).\<close>

fun decay :: "string list \<Rightarrow> weight_table \<Rightarrow> weight_table" where
  "decay normalized_skills [] = []"
| "decay normalized_skills ((skill, w) # rest) =
     (if skill \<notin> set (map lower normalized_skills)
      then (skill, w * 0.999) # decay normalized_skills rest
      else (skill, w) # decay normalized_skills rest)"

text \<open>The table and the flag \<^verbatim>\<open>updated\<close> when line 328 is reached.\<close>

definition learn :: "string list \<Rightarrow> real \<Rightarrow> weight_table \<Rightarrow> weight_table \<times> bool" where
  "learn normalized_skills reward ws =
     (let start = (update_existing normalized_skills reward ws, any_matched normalized_skills ws)
      in if reward > 0.3 then discover reward normalized_skills start else start)"

section \<open>Persistence\<close>

text \<open>The content of \<^verbatim>\<open>data/rl_weights.json\<close>: no file, a file \<^verbatim>\<open>json.load\<close> cannot read,
  or a stored table. What the file system does during one call is a parameter.\<close>

datatype weights_file = NoFile | Corrupt | Stored weight_table

datatype io = IoOk | MkdirFails | OpenFails | DumpFails

record state =
  weights :: weight_table
  disk :: weights_file

text \<open>A call returns the state it leaves and the exception it raises, if any.\<close>

type_synonym outcome = "state \<times> py_error option"

text \<open>\<^verbatim>\<open>_save_weights\<close>: \<^verbatim>\<open>os.makedirs\<close> stands before the \<^verbatim>\<open>try\<close>; a failure of
  \<^verbatim>\<open>open\<close> or \<^verbatim>\<open>json.dump\<close> is printed.\<close>

fun save_weights :: "io \<Rightarrow> state \<Rightarrow> outcome" where
  "save_weights MkdirFails st = (st, Some OSError)"
| "save_weights OpenFails st = (st, None)"
| "save_weights DumpFails st = (st\<lparr>disk := Corrupt\<rparr>, None)"
| "save_weights IoOk st = (st\<lparr>disk := Stored (weights st)\<rparr>, None)"

definition fallback_weights :: weight_table where
  "fallback_weights =
     [(''python'', 1.0), (''ai'', 1.0), (''fastapi'', 1.0), (''communication'', 1.0)]"

definition default_weights :: weight_table where
  "default_weights =
     [(''python'', 1.2), (''java'', 1.1), (''javascript'', 1.0), (''react'', 1.0),
      (''ai'', 1.3), (''machine learning'', 1.3), (''ml'', 1.3), (''data science'', 1.2),
      (''fastapi'', 1.1), (''django'', 1.0), (''flask'', 1.0), (''nodejs'', 1.0),
      (''communication'', 0.9), (''teamwork'', 0.8), (''leadership'', 0.9),
      (''sql'', 1.0), (''database'', 1.0), (''mongodb'', 0.9), (''postgresql'', 1.0)]"

fun load_weights :: "weights_file \<Rightarrow> weight_table" where
  "load_weights (Stored ws) = ws"
| "load_weights Corrupt = fallback_weights"
| "load_weights NoFile = fallback_weights"

text \<open>\<^verbatim>\<open>HRIntelligenceBrain.__init__\<close>\<close>

definition init :: "io \<Rightarrow> weights_file \<Rightarrow> outcome" where
  "init env f =
     (let ws = load_weights f
      in if ws = [] then save_weights env \<lparr>weights = default_weights, disk = f\<rparr>
         else (\<lparr>weights = ws, disk = f\<rparr>, None))"

section \<open>policy\_update and reward\_log\<close>

definition policy_update :: "io \<Rightarrow> state \<Rightarrow> candidate \<Rightarrow> real \<Rightarrow> outcome" where
  "policy_update env st candidate_data reward =
     (let skills = dict_get candidate_data ''skills'' (PList [])
      in case normalize_update skills of
           Inl e \<Rightarrow> (st, Some e)
         | Inr normalized_skills \<Rightarrow>
             (case learn normalized_skills reward (weights st) of
                (ws, updated) \<Rightarrow>
                  if updated
                  then save_weights env (st\<lparr>weights := decay normalized_skills ws\<rparr>)
                  else (st\<lparr>weights := ws\<rparr>, None)))"

text \<open>\<^verbatim>\<open>reward_log\<close>: the two predictions and the log entry do not touch the table, and
  the log files are written inside a \<^verbatim>\<open>try\<close>.\<close>

definition reward_log :: "io \<Rightarrow> state \<Rightarrow> candidate \<Rightarrow> real \<Rightarrow> string \<Rightarrow> outcome" where
  "reward_log env st candidate_data feedback_score outcome =
     (let reward = calculate_reward feedback_score outcome
      in policy_update env st candidate_data reward)"

text \<open>A candidate whose skills are the given strings.\<close>

definition with_skills :: "string list \<Rightarrow> candidate" where
  "with_skills raw = [''skills'' \<mapsto> PList (map PStr raw)]"

section \<open>Notions used to state the properties\<close>

text \<open>The lowercased skills \<^verbatim>\<open>policy_update\<close> works on, or the exception raised while
  computing them.\<close>

definition candidate_skills :: "candidate \<Rightarrow> py_error + string list" where
  "candidate_skills candidate_data =
     normalize_update (dict_get candidate_data ''skills'' (PList []))"

text \<open>The substring test of \<^verbatim>\<open>predict_success\<close>, in either direction.\<close>

definition partial_match :: "string \<Rightarrow> string \<Rightarrow> bool" where
  "partial_match keyword c = (sublist keyword c \<or> sublist c keyword)"

text \<open>The per-keyword score as the specification words it: three tiers in priority
  order, each tried against all normalized candidate skills before the next.\<close>

definition tiered_score :: "string \<Rightarrow> real \<Rightarrow> string list \<Rightarrow> real" where
  "tiered_score keyword weight normalized_skills =
     (if list_ex (\<lambda>c. keyword = c) normalized_skills then weight
      else if list_ex (partial_match keyword) normalized_skills then weight * 0.8
      else if list_ex (word_overlap keyword) normalized_skills then weight * 0.6
      else 0)"

text \<open>The first candidate skill, in sequence order, that substring-matches or
  word-overlaps the keyword.\<close>

definition first_hit :: "string \<Rightarrow> string list \<Rightarrow> string option" where
  "first_hit keyword normalized_skills =
     find (\<lambda>c. partial_match keyword c \<or> word_overlap keyword c) normalized_skills"


text \<open>A weight, and every weight of a table, within the closed interval from \<open>lo\<close>
  to \<open>hi\<close>.\<close>

definition in_bounds :: "real \<Rightarrow> real \<Rightarrow> real \<Rightarrow> bool" where
  "in_bounds lo hi w = (lo \<le> w \<and> w \<le> hi)"

definition weights_in_bounds :: "real \<Rightarrow> real \<Rightarrow> weight_table \<Rightarrow> bool" where
  "weights_in_bounds lo hi ws = list_all (\<lambda>(k, w). in_bounds lo hi w) ws"

section \<open>The weights file as text\<close>

text \<open>
  \<^verbatim>\<open>json.dump\<close> and \<^verbatim>\<open>json.load\<close> belong to Python's standard library, not to this
  program, so they are parameters: \<open>json_dump ws\<close> is the text that
  \<^verbatim>\<open>json.dump(self.weights, f, indent=2)\<close> writes for the table \<open>ws\<close>, \<open>json_cut ws\<close> the text
  a dump that fails midway leaves behind, and \<open>json_load text\<close> what \<^verbatim>\<open>json.load\<close> returns
  for a file with that text, or the exception it raises. The file is \<open>None\<close> when
  \<^verbatim>\<open>os.path.exists\<close> is false.
\<close>

definition load_weights_text ::
  "('f \<Rightarrow> py_error + weight_table) \<Rightarrow> 'f option \<Rightarrow> weight_table" where
  "load_weights_text json_load file =
     (case file of
        None \<Rightarrow> fallback_weights
      | Some text \<Rightarrow> (case json_load text of Inr ws \<Rightarrow> ws | Inl e \<Rightarrow> fallback_weights))"

fun save_weights_text ::
  "(weight_table \<Rightarrow> 'f) \<Rightarrow> (weight_table \<Rightarrow> 'f) \<Rightarrow> io \<Rightarrow> weight_table \<Rightarrow> 'f option
     \<Rightarrow> 'f option \<times> py_error option" where
  "save_weights_text json_dump json_cut MkdirFails ws file = (file, Some OSError)"
| "save_weights_text json_dump json_cut OpenFails ws file = (file, None)"
| "save_weights_text json_dump json_cut DumpFails ws file = (Some (json_cut ws), None)"
| "save_weights_text json_dump json_cut IoOk ws file = (Some (json_dump ws), None)"

text \<open>\<^verbatim>\<open>HRIntelligenceBrain.__init__\<close> on the text file: the table of the new instance, the
  file it leaves and the exception it raises, if any.\<close>

definition init_text ::
  "(weight_table \<Rightarrow> 'f) \<Rightarrow> (weight_table \<Rightarrow> 'f) \<Rightarrow> ('f \<Rightarrow> py_error + weight_table) \<Rightarrow> io
     \<Rightarrow> 'f option \<Rightarrow> (weight_table \<times> 'f option) \<times> py_error option" where
  "init_text json_dump json_cut json_load env file =
     (let ws = load_weights_text json_load file
      in if ws = []
         then (case save_weights_text json_dump json_cut env default_weights file of
                 (file', raised) \<Rightarrow> ((default_weights, file'), raised))
         else ((ws, file), None))"

text \<open>What \<^verbatim>\<open>_load_weights\<close> finds in a text file: the content that \<^typ>\<open>weights_file\<close>
  stands for.\<close>

definition file_content :: "('f \<Rightarrow> py_error + weight_table) \<Rightarrow> 'f option \<Rightarrow> weights_file" where
  "file_content json_load file =
     (case file of
        None \<Rightarrow> NoFile
      | Some text \<Rightarrow> (case json_load text of Inl e \<Rightarrow> Corrupt | Inr ws \<Rightarrow> Stored ws))"







section \<open>Strings and skill lists\<close>

lemma lower_char_idem: "lower_char (lower_char c) = lower_char c"
proof (cases "is_upper (of_char c)")
  case False
  then show ?thesis
    by (simp add: lower_char_def)
next
  case True
  then have "((of_char c :: nat) + 32) mod 256 = of_char c + 32"
    by (intro mod_less) (auto simp: is_upper_def)
  then have n: "(of_char (char_of ((of_char c :: nat) + 32)) :: nat) = of_char c + 32"
    by simp
  from True have "\<not> is_upper ((of_char c :: nat) + 32)"
    by (auto simp: is_upper_def)
  then have "lower_char (char_of ((of_char c :: nat) + 32)) = char_of ((of_char c :: nat) + 32)"
    unfolding lower_char_def n by simp
  with True show ?thesis
    by (simp add: lower_char_def)
qed

lemma lower_idem: "lower (lower s) = lower s"
  by (simp add: lower_def lower_char_idem)

lemma comprehension_str_lower:
  "comprehension str_lower (map PStr raw) = Inr (map lower raw)"
  by (induction raw) simp_all

lemma comprehension_lowered:
  "comprehension str_lower xs = Inr ns \<Longrightarrow> map lower ns = ns"
proof (induction xs arbitrary: ns)
  case Nil
  then show ?case by simp
next
  case (Cons x xs)
  then show ?case
    by (cases x) (auto simp: lower_idem split: sum.splits)
qed

lemma candidate_skills_lowered:
  "candidate_skills cd = Inr ns \<Longrightarrow> map lower ns = ns"
  by (auto simp: candidate_skills_def normalize_update_def comprehension_lowered split: sum.splits)

lemma candidate_skills_with_skills:
  "candidate_skills (with_skills raw) = Inr (map lower raw)"
  by (simp add: candidate_skills_def with_skills_def dict_get_def normalize_update_def
      comprehension_str_lower)

section \<open>Prediction\<close>

lemma round3_range:
  assumes "0.05 \<le> p" "p \<le> 0.95"
  shows "0.05 \<le> round3 p \<and> round3 p \<le> 0.95"
proof -
  have "round (50::real) \<le> round (p * 1000)"
    using assms by (intro round_mono) simp
  moreover have "round (p * 1000) \<le> round (950::real)"
    using assms by (intro round_mono) simp
  ultimately have "50 \<le> round (p * 1000) \<and> round (p * 1000) \<le> 950"
    by simp
  then have "50 \<le> real_of_int (round (p * 1000)) \<and> real_of_int (round (p * 1000)) \<le> 950"
    by linarith
  then show ?thesis
    by (simp add: round3_def)
qed

lemma predict_body_range:
  assumes "predict_body ws cd = Inr p"
  shows "0.05 \<le> p \<and> p \<le> 0.95 \<and> (\<exists>n::int. p = real_of_int n / 1000)"
proof (cases "truthy (dict_get cd ''skills'' (PList []))")
  case False
  with assms have pv: "p = 0.2"
    by (simp add: predict_body_def)
  have "\<exists>n::int. p = real_of_int n / 1000"
    by (rule exI[of _ 200]) (simp add: pv)
  then show ?thesis
    by (simp add: pv)
next
  case True
  with assms obtain q where q: "p = round3 (max 0.05 (min 0.95 q))"
    by (auto simp: predict_body_def Let_def math_exp_def split: sum.splits if_splits)
  have "0.05 \<le> max 0.05 (min 0.95 q)" "max 0.05 (min 0.95 q) \<le> 0.95"
    by simp_all
  then have "0.05 \<le> p \<and> p \<le> 0.95"
    unfolding q by (rule round3_range)
  moreover have "\<exists>n::int. p = real_of_int n / 1000"
    unfolding q round3_def by blast
  ultimately show ?thesis by blast
qed

text \<open>
  C2. For every weight table and every candidate (skills empty, missing or malformed
  included) \<^const>\<open>predict_success\<close> returns a value in [0.05, 0.95] with at most three
  decimals; an exception in the body gives 0.2, as do missing or empty skills. The
  function is total: no exception reaches the caller.
\<close>

theorem predict_success_range:
  "0.05 \<le> predict_success ws cd \<and> predict_success ws cd \<le> 0.95
   \<and> (\<exists>n::int. predict_success ws cd = real_of_int n / 1000)
   \<and> (\<forall>e. predict_body ws cd = Inl e \<longrightarrow> predict_success ws cd = 0.2)
   \<and> (\<not> truthy (dict_get cd ''skills'' (PList [])) \<longrightarrow> predict_success ws cd = 0.2)"
proof (cases "predict_body ws cd")
  case (Inl e)
  then have pv: "predict_success ws cd = 0.2"
    by (simp add: predict_success_def)
  have "\<exists>n::int. predict_success ws cd = real_of_int n / 1000"
    by (rule exI[of _ 200]) (simp add: pv)
  then show ?thesis
    by (simp add: pv)
next
  case (Inr p)
  then have pv: "predict_success ws cd = p"
    by (simp add: predict_success_def)
  have falsy: "\<not> truthy (dict_get cd ''skills'' (PList [])) \<longrightarrow> p = 0.2"
    using Inr by (auto simp: predict_body_def Let_def)
  from predict_body_range[OF Inr] falsy show ?thesis
    by (simp add: pv Inr)
qed

theorem predict_success_range_witness:
  "predict_body [(''python'', 1.2)] [''skills'' \<mapsto> PList [PNum 42]] = Inl AttributeError
   \<and> predict_success [(''python'', 1.2)] [''skills'' \<mapsto> PList [PNum 42]] = 0.2
   \<and> \<not> truthy (dict_get Map.empty ''skills'' (PList []))
   \<and> predict_success [(''python'', 1.2)] Map.empty = 0.2"
proof -
  have h1: "predict_body [(''python'', 1.2)] [''skills'' \<mapsto> PList [PNum 42]] = Inl AttributeError"
    by (simp add: predict_body_def dict_get_def normalize_predict_def)
  have h2: "\<not> truthy (dict_get Map.empty ''skills'' (PList []))"
    by (simp add: dict_get_def)
  from h1 predict_success_range[of "[(''python'', 1.2)]" "[''skills'' \<mapsto> PList [PNum 42]]"]
  have "predict_success [(''python'', 1.2)] [''skills'' \<mapsto> PList [PNum 42]] = 0.2"
    by blast
  moreover from h2 predict_success_range[of "[(''python'', 1.2)]" Map.empty]
  have "predict_success [(''python'', 1.2)] Map.empty = 0.2"
    by blast
  ultimately show ?thesis
    using h1 h2 by blast
qed

lemma fuzzy_score_first_hit:
  "fuzzy_score k w ns =
     (case first_hit k ns of
        None \<Rightarrow> 0
      | Some c \<Rightarrow> if partial_match k c then w * 0.8 else w * 0.6)"
  by (induction ns) (auto simp: first_hit_def partial_match_def)

lemma first_hit_None:
  "first_hit k ns = None \<Longrightarrow> \<not> list_ex (partial_match k) ns \<and> \<not> list_ex (word_overlap k) ns"
  by (auto simp: first_hit_def find_None_iff list_ex_iff)

lemma first_hit_Some:
  "first_hit k ns = Some c \<Longrightarrow> c \<in> set ns \<and> (partial_match k c \<or> word_overlap k c)"
  by (auto simp: first_hit_def find_Some_iff)

text \<open>
  C3 (as amended). The exact tier is tried against all normalized candidate skills first.
  Otherwise the candidate skills are scanned in sequence order and the first one that
  substring-matches or word-overlaps the keyword decides: weight * 0.8 when that candidate
  substring-matches, weight * 0.6 when it only word-overlaps, and 0 when there is none.
  The score agrees with the tier-by-tier evaluation whenever the first such candidate
  substring-matches or no candidate substring-matches at all.
\<close>

theorem skill_score_first_hit:
  "skill_score k w ns =
     (if k \<in> set ns then w
      else case first_hit k ns of
             None \<Rightarrow> 0
           | Some c \<Rightarrow> if partial_match k c then w * 0.8 else w * 0.6)
   \<and> ((case first_hit k ns of
          None \<Rightarrow> True
        | Some c \<Rightarrow> partial_match k c \<or> \<not> list_ex (partial_match k) ns)
       \<longrightarrow> skill_score k w ns = tiered_score k w ns)"
proof -
  have a: "skill_score k w ns =
     (if k \<in> set ns then w
      else case first_hit k ns of
             None \<Rightarrow> 0
           | Some c \<Rightarrow> if partial_match k c then w * 0.8 else w * 0.6)"
    by (simp add: skill_score_def fuzzy_score_first_hit)
  have ex: "list_ex (\<lambda>c. k = c) ns \<longleftrightarrow> k \<in> set ns"
    by (auto simp: list_ex_iff)
  have b: "skill_score k w ns = tiered_score k w ns"
    if h: "case first_hit k ns of None \<Rightarrow> True
           | Some c \<Rightarrow> partial_match k c \<or> \<not> list_ex (partial_match k) ns"
  proof (cases "first_hit k ns")
    case None
    with first_hit_None[OF None] show ?thesis
      by (simp add: a tiered_score_def ex)
  next
    case (Some c)
    from first_hit_Some[OF Some] have c: "c \<in> set ns" "partial_match k c \<or> word_overlap k c"
      by simp_all
    show ?thesis
    proof (cases "partial_match k c")
      case True
      with c have "list_ex (partial_match k) ns"
        by (auto simp: list_ex_iff)
      with True Some show ?thesis
        by (simp add: a tiered_score_def ex)
    next
      case False
      with h Some have "\<not> list_ex (partial_match k) ns"
        by simp
      moreover from False c have "list_ex (word_overlap k) ns"
        by (auto simp: list_ex_iff)
      ultimately show ?thesis
        using False Some by (simp add: a tiered_score_def ex)
    qed
  qed
  from a b show ?thesis by blast
qed

theorem skill_score_first_hit_witness:
  "(case first_hit ''machine learning'' [''machine learning engineer'', ''deep learning''] of
      None \<Rightarrow> True
    | Some c \<Rightarrow> partial_match ''machine learning'' c
        \<or> \<not> list_ex (partial_match ''machine learning'') [''machine learning engineer'', ''deep learning''])
   \<and> skill_score ''machine learning'' 1.3 [''machine learning engineer'', ''deep learning'']
       = tiered_score ''machine learning'' 1.3 [''machine learning engineer'', ''deep learning'']
   \<and> skill_score ''machine learning'' 1.3 [''deep learning'', ''machine learning engineer''] = 1.3 * 0.6"
proof -
  have h: "case first_hit ''machine learning'' [''machine learning engineer'', ''deep learning''] of
      None \<Rightarrow> True
    | Some c \<Rightarrow> partial_match ''machine learning'' c
        \<or> \<not> list_ex (partial_match ''machine learning'') [''machine learning engineer'', ''deep learning'']"
    by code_simp
  have f: "first_hit ''machine learning'' [''deep learning'', ''machine learning engineer'']
             = Some ''deep learning''"
    by code_simp
  have n: "''machine learning'' \<notin> set [''deep learning'', ''machine learning engineer'']"
    by simp
  have p: "\<not> partial_match ''machine learning'' ''deep learning''"
    by code_simp
  from skill_score_first_hit[of "''machine learning''" "1.3" "[''machine learning engineer'', ''deep learning'']"] h
  have "skill_score ''machine learning'' 1.3 [''machine learning engineer'', ''deep learning'']
       = tiered_score ''machine learning'' 1.3 [''machine learning engineer'', ''deep learning'']"
    by blast
  moreover
  from skill_score_first_hit[of "''machine learning''" "1.3" "[''deep learning'', ''machine learning engineer'']"]
  have "skill_score ''machine learning'' 1.3 [''deep learning'', ''machine learning engineer''] = 1.3 * 0.6"
    unfolding f using n p by simp
  ultimately show ?thesis
    using h by blast
qed

text \<open>
  C3 as stated fails: the keyword \<open>machine learning\<close> is a substring of the second
  candidate skill, yet the first candidate skill, which only shares the word
  \<open>learning\<close>, ends the loop with weight * 0.6.
\<close>

theorem later_substring_match_counterexample:
  "list_ex (partial_match ''machine learning'') [''deep learning'', ''machine learning engineer'']
   \<and> tiered_score ''machine learning'' 1.3 [''deep learning'', ''machine learning engineer''] = 1.3 * 0.8
   \<and> skill_score ''machine learning'' 1.3 [''deep learning'', ''machine learning engineer''] = 1.3 * 0.6
   \<and> skill_score ''machine learning'' 1.3 [''deep learning'', ''machine learning engineer'']
       \<noteq> tiered_score ''machine learning'' 1.3 [''deep learning'', ''machine learning engineer'']"
  by code_simp

section \<open>The table after an update\<close>

lemma weights_save_weights: "weights (fst (save_weights env st)) = weights st"
  by (cases env) simp_all

lemma weights_policy_update:
  "weights (fst (policy_update env st cd r)) =
     (case candidate_skills cd of
        Inl e \<Rightarrow> weights st
      | Inr ns \<Rightarrow> (case learn ns r (weights st) of
                    (ws, updated) \<Rightarrow> if updated then decay ns ws else ws))"
  by (simp add: policy_update_def candidate_skills_def weights_save_weights
      split: sum.splits prod.splits)

lemma keys_update_existing: "keys (update_existing ns r ws) = keys ws"
  by (induction ws) (auto simp: keys_def)

lemma map_of_update_existing:
  "map_of (update_existing ns r ws) k =
     map_option (\<lambda>v. if matched k ns then max 0.1 (min 5.0 (v + learning_rate * r)) else v)
       (map_of ws k)"
  by (induction ws) auto

lemma update_existing_unmatched:
  "\<not> any_matched ns ws \<Longrightarrow> update_existing ns r ws = ws"
  by (induction ws) (auto simp: any_matched_def)

lemma keys_decay: "keys (decay ns ws) = keys ws"
  by (induction ws) (auto simp: keys_def)

lemma map_of_decay:
  "map_of (decay ns ws) k =
     map_option (\<lambda>v. if k \<notin> set (map lower ns) then v * 0.999 else v) (map_of ws k)"
  by (induction ws) auto

lemma dict_set_fresh: "k \<notin> set (keys ws) \<Longrightarrow> dict_set ws k v = ws @ [(k, v)]"
  by (induction ws) (auto simp: keys_def)

lemma collides_self: "collides k k"
  by (simp add: collides_def)

lemma should_add_fresh:
  "\<not> list_ex (\<lambda>existing. collides existing c) (keys ws) \<Longrightarrow> c \<notin> set (keys ws)"
  by (auto simp: list_ex_iff collides_self)

lemma discover_extends:
  "\<exists>new. fst (discover r ns (ws, u)) = ws @ new
     \<and> (snd (discover r ns (ws, u)) \<longleftrightarrow> u \<or> new \<noteq> [])
     \<and> set (keys ws) \<inter> set (keys new) = {}"
proof (induction ns arbitrary: ws u)
  case Nil
  then show ?case by (simp add: keys_def)
next
  case (Cons s ns)
  let ?c = "lower (strip s)"
  let ?w = "max 0.5 (min 3.0 (1.0 + (learning_rate * r * 2)))"
  show ?case
  proof (cases "\<not> list_ex (\<lambda>existing. collides existing ?c) (keys ws) \<and> length ?c < 25 \<and> length ?c > 2")
    case False
    then have "discover r (s # ns) (ws, u) = discover r ns (ws, u)"
      by (auto simp: Let_def)
    with Cons.IH[of ws u] show ?thesis by simp
  next
    case True
    then have fresh: "?c \<notin> set (keys ws)"
      using should_add_fresh by blast
    from True have step: "discover r (s # ns) (ws, u) = discover r ns (ws @ [(?c, ?w)], True)"
      by (simp add: Let_def dict_set_fresh[OF fresh])
    from Cons.IH[of "ws @ [(?c, ?w)]" True] obtain new where
      new: "fst (discover r ns (ws @ [(?c, ?w)], True)) = (ws @ [(?c, ?w)]) @ new"
        "snd (discover r ns (ws @ [(?c, ?w)], True))"
        "set (keys (ws @ [(?c, ?w)])) \<inter> set (keys new) = {}"
      by auto
    have "fst (discover r (s # ns) (ws, u)) = ws @ ((?c, ?w) # new)"
      using new(1) step by simp
    moreover have "snd (discover r (s # ns) (ws, u)) \<longleftrightarrow> u \<or> (?c, ?w) # new \<noteq> []"
      using new(2) step by simp
    moreover have "set (keys ws) \<inter> set (keys ((?c, ?w) # new)) = {}"
      using new(3) fresh by (auto simp: keys_def)
    ultimately show ?thesis by blast
  qed
qed

lemma learn_extends:
  "\<exists>new. fst (learn ns r ws) = update_existing ns r ws @ new
     \<and> (snd (learn ns r ws) \<longleftrightarrow> any_matched ns ws \<or> new \<noteq> [])
     \<and> set (keys ws) \<inter> set (keys new) = {}
     \<and> (r \<le> 0.3 \<longrightarrow> new = [])"
proof (cases "r > 0.3")
  case True
  from discover_extends[of r ns "update_existing ns r ws" "any_matched ns ws"]
  show ?thesis
    using True by (auto simp: learn_def Let_def keys_update_existing)
next
  case False
  then show ?thesis
    by (auto simp: learn_def Let_def keys_def)
qed

lemma weights_reward_log:
  "weights (fst (reward_log env st cd fb oc)) =
     (case candidate_skills cd of
        Inl e \<Rightarrow> weights st
      | Inr ns \<Rightarrow> (case learn ns (calculate_reward fb oc) (weights st) of
                    (ws, updated) \<Rightarrow> if updated then decay ns ws else ws))"
  by (simp add: reward_log_def weights_policy_update)



lemma matched_self: "k \<in> set ns \<Longrightarrow> matched k ns"
  by (auto simp: matched_def list_ex_iff)

lemma map_of_learn:
  assumes "map_of ws k = Some v"
  shows "map_of (fst (learn ns r ws)) k =
           Some (if matched k ns then max 0.1 (min 5.0 (v + learning_rate * r)) else v)"
proof -
  from learn_extends[of ns r ws] obtain new where
    new: "fst (learn ns r ws) = update_existing ns r ws @ new"
    by blast
  have "map_of (update_existing ns r ws) k =
          Some (if matched k ns then max 0.1 (min 5.0 (v + learning_rate * r)) else v)"
    using assms by (simp add: map_of_update_existing)
  then show ?thesis
    by (simp add: new)
qed

lemma keys_learn: "prefix (keys ws) (keys (fst (learn ns r ws)))"
proof -
  from learn_extends[of ns r ws] obtain new where
    "fst (learn ns r ws) = update_existing ns r ws @ new"
    by blast
  then have "keys (fst (learn ns r ws)) = keys ws @ keys new"
    using keys_update_existing[of ns r ws] by (simp add: keys_def)
  then show ?thesis by simp
qed

lemma learn_not_updated:
  assumes "\<not> snd (learn ns r ws)"
  shows "fst (learn ns r ws) = ws"
proof -
  from learn_extends[of ns r ws] obtain new where
    new: "fst (learn ns r ws) = update_existing ns r ws @ new"
      "snd (learn ns r ws) \<longleftrightarrow> any_matched ns ws \<or> new \<noteq> []"
    by blast
  with assms have "\<not> any_matched ns ws" "new = []"
    by simp_all
  then show ?thesis
    by (simp add: new(1) update_existing_unmatched)
qed

lemma learn_updated_iff:
  "snd (learn ns r ws) \<longleftrightarrow> any_matched ns ws \<or> keys (fst (learn ns r ws)) \<noteq> keys ws"
proof -
  from learn_extends[of ns r ws] obtain new where
    new: "fst (learn ns r ws) = update_existing ns r ws @ new"
      "snd (learn ns r ws) \<longleftrightarrow> any_matched ns ws \<or> new \<noteq> []"
    by blast
  have "keys (fst (learn ns r ws)) = keys ws @ keys new"
    using keys_update_existing[of ns r ws] by (simp add: new(1) keys_def)
  then have "keys (fst (learn ns r ws)) \<noteq> keys ws \<longleftrightarrow> new \<noteq> []"
    by (simp add: keys_def)
  with new(2) show ?thesis by simp
qed

lemma learn_no_discovery:
  "r \<le> 0.3 \<Longrightarrow> keys (fst (learn ns r ws)) = keys ws"
  by (simp add: learn_def keys_update_existing)

lemma map_of_reward_log_exact:
  assumes "candidate_skills cd = Inr ns" "k \<in> set ns" "map_of (weights st) k = Some v"
  shows "map_of (weights (fst (reward_log env st cd fb oc))) k =
           Some (max 0.1 (min 5.0 (v + 0.15 * calculate_reward fb oc)))"
proof -
  let ?r = "calculate_reward fb oc"
  have m: "map_of (fst (learn ns ?r (weights st))) k = Some (max 0.1 (min 5.0 (v + 0.15 * ?r)))"
    using map_of_learn[OF assms(3), of ns ?r] matched_self[OF assms(2)]
    by (simp add: learning_rate_def)
  have "k \<in> set (map lower ns)"
    using assms(2) candidate_skills_lowered[OF assms(1)] by simp
  then have "map_of (decay ns (fst (learn ns ?r (weights st)))) k
               = Some (max 0.1 (min 5.0 (v + 0.15 * ?r)))"
    using m by (simp add: map_of_decay)
  with m show ?thesis
    by (cases "learn ns ?r (weights st)") (simp add: weights_reward_log assms(1))
qed



lemma keys_reward_log_prefix:
  "prefix (keys (weights st)) (keys (weights (fst (reward_log env st cd fb oc))))"
proof (cases "candidate_skills cd")
  case (Inl e)
  then show ?thesis
    by (simp add: weights_reward_log)
next
  case (Inr ns)
  obtain ws u where l: "learn ns (calculate_reward fb oc) (weights st) = (ws, u)"
    by (cases "learn ns (calculate_reward fb oc) (weights st)")
  from keys_learn[of "weights st" ns "calculate_reward fb oc"] l
  have "prefix (keys (weights st)) (keys ws)"
    by simp
  then show ?thesis
    by (simp add: weights_reward_log Inr l keys_decay)
qed

lemma keys_reward_log_low_reward:
  assumes "calculate_reward fb oc \<le> 0.3"
  shows "keys (weights (fst (reward_log env st cd fb oc))) = keys (weights st)"
proof (cases "candidate_skills cd")
  case (Inl e)
  then show ?thesis
    by (simp add: weights_reward_log)
next
  case (Inr ns)
  obtain ws u where l: "learn ns (calculate_reward fb oc) (weights st) = (ws, u)"
    by (cases "learn ns (calculate_reward fb oc) (weights st)")
  from learn_no_discovery[OF assms, of ns "weights st"] l
  have "keys ws = keys (weights st)"
    by simp
  then show ?thesis
    by (simp add: weights_reward_log Inr l keys_decay)
qed

lemma novel_unmatched:
  assumes "\<forall>existing \<in> set (keys ws). \<not> sublist existing s"
  shows "\<not> any_matched [s] ws"
  using assms by (auto simp: any_matched_def matched_def list_ex_iff keys_def)

lemma learn_single_novel:
  assumes r: "r > 0.3"
    and trimmed: "lower (strip s) = s"
    and len: "2 < length s" "length s < 25"
    and novel: "\<forall>existing \<in> set (keys ws).
        \<not> sublist existing s \<and> \<not> sublist s existing
        \<and> \<not> \<bar>int (length existing) - int (length s)\<bar> < 3"
  shows "learn [s] r ws = (ws @ [(s, max 0.5 (min 3.0 (1.0 + 2 * 0.15 * r)))], True)"
proof -
  have un: "\<not> any_matched [s] ws"
    using novel by (intro novel_unmatched) blast
  then have ue: "update_existing [s] r ws = ws"
    by (rule update_existing_unmatched)
  have nc: "\<not> list_ex (\<lambda>existing. collides existing s) (keys ws)"
    using novel by (auto simp: list_ex_iff collides_def)
  then have fresh: "s \<notin> set (keys ws)"
    by (rule should_add_fresh)
  have "discover r [s] (ws, False) = (dict_set ws s (max 0.5 (min 3.0 (1.0 + (learning_rate * r * 2)))), True)"
    using nc len by (simp add: trimmed Let_def)
  also have "dict_set ws s (max 0.5 (min 3.0 (1.0 + (learning_rate * r * 2))))
      = ws @ [(s, max 0.5 (min 3.0 (1.0 + 2 * 0.15 * r)))]"
    by (simp add: dict_set_fresh[OF fresh] learning_rate_def mult.commute)
  finally show ?thesis
    using r un ue by (simp add: learn_def)
qed

lemma decay_append: "decay ns (xs @ ys) = decay ns xs @ decay ns ys"
  by (induction xs) auto

text \<open>
  C5. An update whose reward is at most 0.3 leaves the keys of the table as they are,
  whatever the candidate. An update with reward above 0.3 and a single skill whose
  lowercased form \<open>s\<close> is trimmed, has length strictly between 2 and 25, and collides
  with no existing keyword (none is a substring of \<open>s\<close>, \<open>s\<close> is a substring of none,
  none has a length within 3 of the length of \<open>s\<close>) appends exactly the key \<open>s\<close>, with
  weight clamp(1.0 + 2 * 0.15 * reward, 0.5, 3.0).
\<close>

theorem skill_discovery:
  "(calculate_reward fb oc \<le> 0.3 \<longrightarrow>
      keys (weights (fst (reward_log env st cd fb oc))) = keys (weights st))
   \<and> (calculate_reward fb oc > 0.3 \<and> s = lower raw \<and> strip s = s
       \<and> 2 < length s \<and> length s < 25
       \<and> (\<forall>existing \<in> set (keys (weights st)).
             \<not> sublist existing s \<and> \<not> sublist s existing
             \<and> \<not> \<bar>int (length existing) - int (length s)\<bar> < 3)
       \<longrightarrow> keys (weights (fst (reward_log env st (with_skills [raw]) fb oc)))
             = keys (weights st) @ [s]
           \<and> map_of (weights (fst (reward_log env st (with_skills [raw]) fb oc))) s
             = Some (max 0.5 (min 3.0 (1.0 + 2 * 0.15 * calculate_reward fb oc))))"
proof -
  let ?r = "calculate_reward fb oc"
  let ?w = "max 0.5 (min 3.0 (1.0 + 2 * 0.15 * ?r))"
  have b: "keys (weights (fst (reward_log env st (with_skills [raw]) fb oc)))
             = keys (weights st) @ [s]
           \<and> map_of (weights (fst (reward_log env st (with_skills [raw]) fb oc))) s = Some ?w"
    if h: "?r > 0.3" "s = lower raw" "strip s = s" "2 < length s" "length s < 25"
      "\<forall>existing \<in> set (keys (weights st)).
             \<not> sublist existing s \<and> \<not> sublist s existing
             \<and> \<not> \<bar>int (length existing) - int (length s)\<bar> < 3"
  proof -
    have ls: "lower s = s"
      using h(2) by (simp add: lower_idem)
    then have trimmed: "lower (strip s) = s"
      using h(3) by simp
    have l: "learn [s] ?r (weights st) = (weights st @ [(s, ?w)], True)"
      using learn_single_novel[OF h(1) trimmed h(4) h(5) h(6)] .
    have fresh: "s \<notin> set (keys (weights st))"
      using h(6) by auto
    have after: "weights (fst (reward_log env st (with_skills [raw]) fb oc))
        = decay [s] (weights st) @ [(s, ?w)]"
      using l h(2) ls
      by (simp add: weights_reward_log candidate_skills_with_skills decay_append)
    have "keys (decay [s] (weights st) @ [(s, ?w)]) = keys (weights st) @ [s]"
      using keys_decay[of "[s]" "weights st"] by (simp add: keys_def)
    moreover have "map_of (decay [s] (weights st) @ [(s, ?w)]) s = Some ?w"
    proof -
      have "fst ` set (decay [s] (weights st)) = set (keys (decay [s] (weights st)))"
        by (simp add: keys_def)
      then have "s \<notin> fst ` set (decay [s] (weights st))"
        using fresh by (simp add: keys_decay)
      then have "map_of (decay [s] (weights st)) s = None"
        by (simp add: map_of_eq_None_iff)
      then show ?thesis
        by (simp add: map_add_def)
    qed
    ultimately show ?thesis
      by (simp only: after)
  qed
  from keys_reward_log_low_reward[of fb oc env st cd] b show ?thesis
    by blast
qed

theorem skill_discovery_witness:
  "calculate_reward 3 ''pending'' \<le> 0.3
   \<and> keys (weights (fst (reward_log IoOk \<lparr>weights = [(''python'', 1.2)], disk = NoFile\<rparr>
         (with_skills [''UnknownTech'']) 3 ''pending''))) = [''python'']
   \<and> calculate_reward 5 ''hired'' > 0.3
   \<and> ''unknowntech'' = lower ''UnknownTech'' \<and> strip ''unknowntech'' = ''unknowntech''
   \<and> 2 < length ''unknowntech'' \<and> length ''unknowntech'' < 25
   \<and> list_all (\<lambda>existing. \<not> sublist existing ''unknowntech'' \<and> \<not> sublist ''unknowntech'' existing
             \<and> \<not> \<bar>int (length existing) - int (length ''unknowntech'')\<bar> < 3)
         (keys [(''python'', 1.2)])
   \<and> keys (weights (fst (reward_log IoOk \<lparr>weights = [(''python'', 1.2)], disk = NoFile\<rparr>
         (with_skills [''UnknownTech'']) 5 ''hired''))) = [''python'', ''unknowntech'']
   \<and> map_of (weights (fst (reward_log IoOk \<lparr>weights = [(''python'', 1.2)], disk = NoFile\<rparr>
         (with_skills [''UnknownTech'']) 5 ''hired''))) ''unknowntech'' = Some 1.36"
proof -
  let ?st = "\<lparr>weights = [(''python'', 1.2)], disk = NoFile\<rparr>"
  let ?s = "''unknowntech''"
  have r1: "calculate_reward 3 ''pending'' \<le> 0.3" by code_simp
  have r2: "calculate_reward 5 ''hired'' = 1.2" by code_simp
  then have r2': "calculate_reward 5 ''hired'' > 0.3" by simp
  have h2: "?s = lower ''UnknownTech''" by code_simp
  have h3: "strip ?s = ?s" by code_simp
  have h4: "2 < length ?s" "length ?s < 25" by simp_all
  have h5: "list_all (\<lambda>existing. \<not> sublist existing ?s \<and> \<not> sublist ?s existing
             \<and> \<not> \<bar>int (length existing) - int (length ?s)\<bar> < 3) (keys [(''python'', 1.2)])"
    by code_simp
  then have h5': "\<forall>existing \<in> set (keys (weights ?st)).
      \<not> sublist existing ?s \<and> \<not> sublist ?s existing
      \<and> \<not> \<bar>int (length existing) - int (length ?s)\<bar> < 3"
    by (simp add: list_all_iff)
  have k: "keys (weights ?st) = [''python'']"
    by (simp add: keys_def)
  from skill_discovery[of 3 "''pending''" IoOk ?st "with_skills [''UnknownTech'']"] r1
  have c1: "keys (weights (fst (reward_log IoOk ?st (with_skills [''UnknownTech'']) 3 ''pending'')))
      = [''python'']"
    unfolding k by blast
  from skill_discovery[of 5 "''hired''" IoOk ?st _ ?s "''UnknownTech''"] r2' h2 h3 h4 h5'
  have c2: "keys (weights (fst (reward_log IoOk ?st (with_skills [''UnknownTech'']) 5 ''hired'')))
             = keys (weights ?st) @ [?s]
           \<and> map_of (weights (fst (reward_log IoOk ?st (with_skills [''UnknownTech'']) 5 ''hired''))) ?s
             = Some (max 0.5 (min 3.0 (1.0 + 2 * 0.15 * calculate_reward 5 ''hired'')))"
    by blast
  have a: "max 0.5 (min 3.0 (1.0 + 2 * 0.15 * (1.2::real))) = 1.36"
    by simp
  from c2 have c2': "keys (weights (fst (reward_log IoOk ?st (with_skills [''UnknownTech'']) 5 ''hired'')))
             = [''python'', ''unknowntech'']
           \<and> map_of (weights (fst (reward_log IoOk ?st (with_skills [''UnknownTech'']) 5 ''hired''))) ?s
             = Some 1.36"
    unfolding k r2 a by simp
  from r1 c1 r2' h2 h3 h4 h5 c2' show ?thesis
    by blast
qed

text \<open>
  C6. With \<open>ns\<close> the lowercased candidate skills: the flag \<^verbatim>\<open>updated\<close> is set exactly when
  some keyword matched (a weight update) or a keyword was inserted. Every keyword of the
  table that is not a substring of any skill in \<open>ns\<close> ends with its weight multiplied by
  0.999 when the flag is set and with its weight unchanged otherwise; without the flag
  the whole table is unchanged. The keys before the call are a prefix of the keys
  after it, for every candidate: nothing is removed.
\<close>

theorem decay_rule:
  "(candidate_skills cd = Inr ns \<longrightarrow>
      (snd (learn ns (calculate_reward fb oc) (weights st))
         \<longleftrightarrow> any_matched ns (weights st)
             \<or> keys (weights (fst (reward_log env st cd fb oc))) \<noteq> keys (weights st))
      \<and> (map_of (weights st) k = Some v \<and> \<not> matched k ns \<longrightarrow>
            map_of (weights (fst (reward_log env st cd fb oc))) k
              = Some (if snd (learn ns (calculate_reward fb oc) (weights st))
                      then v * 0.999 else v))
      \<and> (\<not> snd (learn ns (calculate_reward fb oc) (weights st)) \<longrightarrow>
            weights (fst (reward_log env st cd fb oc)) = weights st))
   \<and> prefix (keys (weights st)) (keys (weights (fst (reward_log env st cd fb oc))))"
proof -
  let ?r = "calculate_reward fb oc"
  have main: "(snd (learn ns ?r (weights st))
         \<longleftrightarrow> any_matched ns (weights st)
             \<or> keys (weights (fst (reward_log env st cd fb oc))) \<noteq> keys (weights st))
      \<and> (map_of (weights st) k = Some v \<and> \<not> matched k ns \<longrightarrow>
            map_of (weights (fst (reward_log env st cd fb oc))) k
              = Some (if snd (learn ns ?r (weights st)) then v * 0.999 else v))
      \<and> (\<not> snd (learn ns ?r (weights st)) \<longrightarrow>
            weights (fst (reward_log env st cd fb oc)) = weights st)"
    if cs: "candidate_skills cd = Inr ns"
  proof -
    obtain ws u where l: "learn ns ?r (weights st) = (ws, u)"
      by (cases "learn ns ?r (weights st)")
    have after: "weights (fst (reward_log env st cd fb oc)) = (if u then decay ns ws else ws)"
      by (simp add: weights_reward_log cs l)
    then have ka: "keys (weights (fst (reward_log env st cd fb oc))) = keys ws"
      by (simp add: keys_decay)
    have p1: "u \<longleftrightarrow> any_matched ns (weights st) \<or> keys ws \<noteq> keys (weights st)"
      using learn_updated_iff[of ns ?r "weights st"] l by simp
    have p3: "weights (fst (reward_log env st cd fb oc)) = weights st" if "\<not> u"
      using learn_not_updated[of ns ?r "weights st"] l that after by simp
    have p2: "map_of (weights (fst (reward_log env st cd fb oc))) k
              = Some (if u then v * 0.999 else v)"
      if kv: "map_of (weights st) k = Some v" and nm: "\<not> matched k ns"
    proof -
      have m: "map_of ws k = Some v"
        using map_of_learn[OF kv, of ns ?r] l nm by simp
      have "k \<notin> set (map lower ns)"
      proof
        assume "k \<in> set (map lower ns)"
        then have "k \<in> set ns"
          using candidate_skills_lowered[OF cs] by simp
        then show False
          using nm matched_self by blast
      qed
      then have "map_of (decay ns ws) k = Some (v * 0.999)"
        using m by (simp add: map_of_decay)
      with m show ?thesis
        by (simp add: after)
    qed
    from p1 p2 p3 show ?thesis
      by (simp add: l ka)
  qed
  from main keys_reward_log_prefix[of st env cd fb oc] show ?thesis
    by blast
qed

theorem decay_rule_witness:
  "candidate_skills (with_skills [''Python'']) = Inr [''python'']
   \<and> map_of (weights \<lparr>weights = [(''python'', 1.2), (''java'', 1.1)], disk = NoFile\<rparr>) ''java'' = Some 1.1
   \<and> \<not> matched ''java'' [''python'']
   \<and> snd (learn [''python''] (calculate_reward 5 ''hired'') [(''python'', 1.2), (''java'', 1.1)])
   \<and> map_of (weights (fst (reward_log IoOk \<lparr>weights = [(''python'', 1.2), (''java'', 1.1)], disk = NoFile\<rparr>
         (with_skills [''Python'']) 5 ''hired''))) ''java'' = Some 1.0989
   \<and> candidate_skills (with_skills [''Go'']) = Inr [''go'']
   \<and> \<not> snd (learn [''go''] (calculate_reward 1 ''rejected'') [(''python'', 1.2), (''java'', 1.1)])
   \<and> weights (fst (reward_log IoOk \<lparr>weights = [(''python'', 1.2), (''java'', 1.1)], disk = NoFile\<rparr>
         (with_skills [''Go'']) 1 ''rejected'')) = [(''python'', 1.2), (''java'', 1.1)]"
proof -
  let ?ws = "[(''python'', 1.2), (''java'', 1.1)] :: weight_table"
  let ?st = "\<lparr>weights = ?ws, disk = NoFile\<rparr>"
  have h1: "candidate_skills (with_skills [''Python'']) = Inr [''python'']" by code_simp
  have h2: "map_of (weights ?st) ''java'' = Some 1.1" by simp
  have h3: "\<not> matched ''java'' [''python'']" by code_simp
  have h4: "snd (learn [''python''] (calculate_reward 5 ''hired'') ?ws)" by code_simp
  have h5: "candidate_skills (with_skills [''Go'']) = Inr [''go'']" by code_simp
  have h6: "\<not> snd (learn [''go''] (calculate_reward 1 ''rejected'') ?ws)" by code_simp
  have w: "weights ?st = ?ws" by simp
  from decay_rule[of "with_skills [''Python'']" "[''python'']" 5 "''hired''" ?st IoOk "''java''" "1.1"]
    h1 h2 h3 h4
  have c1: "map_of (weights (fst (reward_log IoOk ?st (with_skills [''Python'']) 5 ''hired''))) ''java''
      = Some (1.1 * 0.999)"
    unfolding w by simp
  from decay_rule[of "with_skills [''Go'']" "[''go'']" 1 "''rejected''" ?st IoOk] h5 h6
  have c2: "weights (fst (reward_log IoOk ?st (with_skills [''Go'']) 1 ''rejected'')) = ?ws"
    unfolding w by simp
  have a: "(1.1::real) * 0.999 = 1.0989" by simp
  from h1 h2 h3 h4 c1 h5 h6 c2 show ?thesis
    unfolding a by blast
qed

section \<open>Persistence round trip\<close>





lemma load_weights_text_content:
  "load_weights_text json_load file = load_weights (file_content json_load file)"
  by (simp add: load_weights_text_def file_content_def split: option.splits sum.splits)

lemma init_text_content:
  "fst (fst (init_text json_dump json_cut json_load env file))
     = weights (fst (init env (file_content json_load file)))
   \<and> snd (init_text json_dump json_cut json_load env file)
     = snd (init env (file_content json_load file))"
  by (cases env)
    (simp_all add: init_text_def init_def Let_def load_weights_text_content split: prod.splits)

lemma save_weights_text_content:
  assumes "json_load (json_dump ws) = Inr ws"
  shows "file_content json_load (fst (save_weights_text json_dump json_cut IoOk ws file))
           = disk (fst (save_weights IoOk \<lparr>weights = ws, disk = file_content json_load file\<rparr>))"
  using assms by (simp add: file_content_def)

text \<open>A successful update that changed the table has written the table it leaves.\<close>

lemma reward_log_persists:
  assumes "candidate_skills cd = Inr ns" "snd (learn ns (calculate_reward fb oc) (weights st))"
  shows "disk (fst (reward_log IoOk st cd fb oc)) = Stored (weights (fst (reward_log IoOk st cd fb oc)))"
  using assms
  by (cases "learn ns (calculate_reward fb oc) (weights st)")
    (simp add: reward_log_def policy_update_def candidate_skills_def)



section \<open>Bounds, direction and key uniqueness\<close>

text \<open>From weights in [0.1, 5.0] a call leaves weights in [0.0999, 5.0]: the update loop
  and the discovery clamp, the decay does not.\<close>

lemma clamp_within: "in_bounds 0.1 5 (max 0.1 (min 5.0 x))"
  by (auto simp: in_bounds_def max_def min_def)

lemma initial_within: "in_bounds 0.1 5 (max 0.5 (min 3.0 x))"
  by (auto simp: in_bounds_def max_def min_def)

lemma decayed_within: "in_bounds 0.1 5 w \<Longrightarrow> in_bounds 0.0999 5 (w * 0.999)"
  by (auto simp: in_bounds_def)

lemma within_weaken: "in_bounds 0.1 5 w \<Longrightarrow> in_bounds 0.0999 5 w"
  by (auto simp: in_bounds_def)

lemma update_existing_within:
  "weights_in_bounds 0.1 5 ws \<Longrightarrow> weights_in_bounds 0.1 5 (update_existing ns r ws)"
  unfolding weights_in_bounds_def
  by (induction ws) (auto simp: Let_def clamp_within[simplified])

lemma dict_set_all:
  "list_all P ws \<Longrightarrow> P (k, v) \<Longrightarrow> list_all P (dict_set ws k v)"
  by (induction ws) auto

lemma discover_within:
  "weights_in_bounds 0.1 5 ws \<Longrightarrow> weights_in_bounds 0.1 5 (fst (discover r ns (ws, u)))"
proof (induction ns arbitrary: ws u)
  case Nil
  then show ?case by simp
next
  case (Cons s ns)
  let ?w = "max 0.5 (min 3.0 (1.0 + (learning_rate * r * 2)))"
  have "weights_in_bounds 0.1 5 (dict_set ws (lower (strip s)) ?w)"
    using Cons.prems unfolding weights_in_bounds_def
    by (intro dict_set_all) (simp_all add: initial_within[simplified])
  with Cons show ?case
    by (simp add: Let_def)
qed

lemma decay_within:
  "weights_in_bounds 0.1 5 ws \<Longrightarrow> weights_in_bounds 0.0999 5 (decay ns ws)"
  unfolding weights_in_bounds_def
  by (induction ws) (auto simp: decayed_within[simplified] within_weaken[simplified])

lemma weights_in_bounds_weaken:
  "weights_in_bounds 0.1 5 ws \<Longrightarrow> weights_in_bounds 0.0999 5 ws"
  unfolding weights_in_bounds_def
  by (induction ws) (auto simp: within_weaken[simplified])

lemma reward_log_within:
  assumes "weights_in_bounds 0.1 5 (weights st)"
  shows "weights_in_bounds 0.0999 5 (weights (fst (reward_log env st cd fb oc)))"
proof (cases "candidate_skills cd")
  case (Inl e)
  with weights_in_bounds_weaken[OF assms] show ?thesis
    by (simp add: weights_reward_log)
next
  case (Inr ns)
  let ?r = "calculate_reward fb oc"
  obtain ws u where l: "learn ns ?r (weights st) = (ws, u)"
    by (cases "learn ns ?r (weights st)")
  have "weights_in_bounds 0.1 5 (fst (learn ns ?r (weights st)))"
    using update_existing_within[OF assms, of ns ?r]
      discover_within[OF update_existing_within[OF assms, of ns ?r], of ?r ns "any_matched ns (weights st)"]
    by (simp add: learn_def Let_def)
  then have w: "weights_in_bounds 0.1 5 ws"
    by (simp add: l)
  show ?thesis
    using decay_within[OF w, of ns] weights_in_bounds_weaken[OF w]
    by (simp add: weights_reward_log Inr l)
qed

text \<open>The weight of a matched keyword when the call ends: the clamped sum if the keyword
  equals a lowercased skill, and that value decayed if it is only a substring of one.\<close>

lemma any_matched_key:
  assumes "map_of ws k = Some v" "matched k ns"
  shows "any_matched ns ws"
proof -
  from assms(1) have "(k, v) \<in> set ws"
    by (rule map_of_SomeD)
  with assms(2) show ?thesis
    by (auto simp: any_matched_def list_ex_iff)
qed

lemma map_of_reward_log_matched:
  assumes "candidate_skills cd = Inr ns" "matched k ns" "map_of (weights st) k = Some v"
  shows "map_of (weights (fst (reward_log env st cd fb oc))) k =
           Some (if k \<in> set ns
                 then max 0.1 (min 5.0 (v + 0.15 * calculate_reward fb oc))
                 else max 0.1 (min 5.0 (v + 0.15 * calculate_reward fb oc)) * 0.999)"
proof -
  let ?r = "calculate_reward fb oc"
  let ?c = "max 0.1 (min 5.0 (v + 0.15 * ?r))"
  obtain ws u where l: "learn ns ?r (weights st) = (ws, u)"
    by (cases "learn ns ?r (weights st)")
  have "snd (learn ns ?r (weights st))"
    using learn_updated_iff[of ns ?r "weights st"] any_matched_key[OF assms(3) assms(2)]
    by simp
  then have u: "u"
    by (simp add: l)
  have m: "map_of ws k = Some ?c"
    using map_of_learn[OF assms(3), of ns ?r] assms(2) l
    by (simp add: learning_rate_def)
  have "map_of (decay ns ws) k = Some (if k \<in> set ns then ?c else ?c * 0.999)"
    using m candidate_skills_lowered[OF assms(1)] by (simp add: map_of_decay)
  then show ?thesis
    by (simp add: weights_reward_log assms(1) l u)
qed

text \<open>A keyword that equals a lowercased skill moves in the direction of the reward.\<close>

lemma exact_key_direction:
  assumes "candidate_skills cd = Inr ns" "k \<in> set ns" "map_of (weights st) k = Some v"
    and "0.1 \<le> v" "v \<le> 5"
  shows "\<exists>v'. map_of (weights (fst (reward_log env st cd 5 ''hired''))) k = Some v' \<and> v \<le> v'"
    and "\<exists>v'. map_of (weights (fst (reward_log env st cd 1 ''rejected''))) k = Some v' \<and> v' \<le> v"
proof -
  have r1: "calculate_reward 5 ''hired'' = 1.2" by code_simp
  have r2: "calculate_reward 1 ''rejected'' = - 0.92" by code_simp
  show "\<exists>v'. map_of (weights (fst (reward_log env st cd 5 ''hired''))) k = Some v' \<and> v \<le> v'"
    using map_of_reward_log_exact[OF assms(1-3), of env 5 "''hired''"] assms(4,5)
    by (simp add: r1)
  show "\<exists>v'. map_of (weights (fst (reward_log env st cd 1 ''rejected''))) k = Some v' \<and> v' \<le> v"
    using map_of_reward_log_exact[OF assms(1-3), of env 1 "''rejected''"] assms(4,5)
    by (simp add: r2)
qed

text \<open>A call keeps the keys of the table distinct.\<close>

lemma distinct_update_existing:
  "distinct (keys ws) \<Longrightarrow> distinct (keys (update_existing ns r ws))"
  by (simp add: keys_update_existing)

lemma distinct_discover:
  "distinct (keys ws) \<Longrightarrow> distinct (keys (fst (discover r ns (ws, u))))"
proof (induction ns arbitrary: ws u)
  case Nil
  then show ?case by simp
next
  case (Cons s ns)
  let ?c = "lower (strip s)"
  show ?case
  proof (cases "\<not> list_ex (\<lambda>existing. collides existing ?c) (keys ws) \<and> length ?c < 25 \<and> length ?c > 2")
    case False
    with Cons show ?thesis
      by (auto simp: Let_def)
  next
    case True
    then have fresh: "?c \<notin> set (keys ws)"
      using should_add_fresh by blast
    then have "distinct (keys (ws @ [(?c, v)]))" for v
      using Cons.prems by (simp add: keys_def)
    with Cons.IH True show ?thesis
      by (simp add: Let_def dict_set_fresh[OF fresh])
  qed
qed

lemma distinct_reward_log:
  assumes "distinct (keys (weights st))"
  shows "distinct (keys (weights (fst (reward_log env st cd fb oc))))"
proof (cases "candidate_skills cd")
  case (Inl e)
  with assms show ?thesis
    by (simp add: weights_reward_log)
next
  case (Inr ns)
  let ?r = "calculate_reward fb oc"
  obtain ws u where l: "learn ns ?r (weights st) = (ws, u)"
    by (cases "learn ns ?r (weights st)")
  have "distinct (keys (fst (learn ns ?r (weights st))))"
    using distinct_update_existing[OF assms, of ns ?r]
      distinct_discover[OF distinct_update_existing[OF assms, of ns ?r], of ?r ns "any_matched ns (weights st)"]
    by (simp add: learn_def Let_def)
  then show ?thesis
    by (simp add: weights_reward_log Inr l keys_decay)
qed

section \<open>Where the code departs from its stated behaviour\<close>

text \<open>
  C1. The decay loop multiplies without clamping: a keyword at the minimum weight 0.1
  that the candidate does not name leaves the call at 0.0999, below the bound that the
  update loop and \<^verbatim>\<open>test_weight_bounds\<close> keep.
\<close>

theorem decay_below_min_weight:
  "weights_in_bounds 0.1 5 [(''python'', 1.0), (''java'', 0.1)]
   \<and> weights (fst (reward_log IoOk \<lparr>weights = [(''python'', 1.0), (''java'', 0.1)], disk = NoFile\<rparr>
        (with_skills [''Python'']) 5 ''hired''))
       = [(''python'', 1.18), (''java'', 0.0999)]
   \<and> \<not> weights_in_bounds 0.1 5
        (weights (fst (reward_log IoOk \<lparr>weights = [(''python'', 1.0), (''java'', 0.1)], disk = NoFile\<rparr>
           (with_skills [''Python'']) 5 ''hired'')))"
  by code_simp

text \<open>
  C7. The decay loop tests list membership where the update loop tests substrings: the
  keyword \<open>java\<close> is matched by the skill \<open>javascript\<close> and rewarded, then decayed as
  unused. At weight 5.0 the reward is clamped away and the call lowers the weight.
\<close>

theorem matched_keyword_decays:
  "matched ''java'' [''javascript'']
   \<and> weights (fst (reward_log IoOk \<lparr>weights = [(''java'', 5.0), (''javascript'', 1.0)], disk = NoFile\<rparr>
      (with_skills [''JavaScript'']) 5 ''hired''))
     = [(''java'', 4.995), (''javascript'', 1.18)]"
  by code_simp

text \<open>
  C8. Without a readable file \<^verbatim>\<open>_load_weights\<close> returns its own four-key table, so the
  constructor's test for an empty table fails: the default table is not seeded and
  nothing is written.
\<close>

theorem init_without_file:
  "init env NoFile = (\<lparr>weights = fallback_weights, disk = NoFile\<rparr>, None)
   \<and> init env Corrupt = (\<lparr>weights = fallback_weights, disk = Corrupt\<rparr>, None)
   \<and> fallback_weights \<noteq> default_weights
   \<and> map_of fallback_weights ''python'' = Some 1.0
   \<and> map_of default_weights ''python'' = Some 1.2"
  by (simp add: init_def fallback_weights_def default_weights_def)

text \<open>
  C9. \<^verbatim>\<open>policy_update\<close> has no handler: a skill that is not a string raises
  AttributeError out of \<^verbatim>\<open>reward_log\<close>, where \<^verbatim>\<open>predict_success\<close> returns 0.2 on the same
  candidate. A failure of \<^verbatim>\<open>os.makedirs\<close> in \<^verbatim>\<open>_save_weights\<close> is raised as well, after
  the table has changed.
\<close>

theorem reward_log_raises:
  "reward_log env st [''skills'' \<mapsto> PList [PNum 42]] fb oc = (st, Some AttributeError)
   \<and> predict_success (weights st) [''skills'' \<mapsto> PList [PNum 42]] = 0.2
   \<and> reward_log MkdirFails \<lparr>weights = [(''python'', 1.2)], disk = NoFile\<rparr>
        (with_skills [''Python'']) 5 ''hired''
       = (\<lparr>weights = [(''python'', 1.38)], disk = NoFile\<rparr>, Some OSError)"
proof -
  have a: "reward_log env st [''skills'' \<mapsto> PList [PNum 42]] fb oc = (st, Some AttributeError)"
    by (simp add: reward_log_def policy_update_def dict_get_def normalize_update_def)
  have b: "predict_success (weights st) [''skills'' \<mapsto> PList [PNum 42]] = 0.2"
    by (simp add: predict_success_def predict_body_def dict_get_def normalize_predict_def)
  have c: "reward_log MkdirFails \<lparr>weights = [(''python'', 1.2)], disk = NoFile\<rparr>
        (with_skills [''Python'']) 5 ''hired''
       = (\<lparr>weights = [(''python'', 1.38)], disk = NoFile\<rparr>, Some OSError)"
    by code_simp
  from a b c show ?thesis by blast
qed

text \<open>With skills that are strings and a data directory that can be created, the
  call returns; a failure to open or write the file is not raised.\<close>

lemma reward_log_returns:
  assumes "candidate_skills cd = Inr ns" "env \<noteq> MkdirFails"
  shows "snd (reward_log env st cd fb oc) = None"
proof -
  have "snd (save_weights env s) = None" for s
    using assms(2) by (cases env) simp_all
  then show ?thesis
    using assms(1)
    by (simp add: reward_log_def policy_update_def candidate_skills_def split: prod.splits)
qed

end
